theory Spec2Isabelle
  imports Complex_Main
begin

section \<open>The DyslexiaFont component (src/frontend/src/pages/DyslexiaFont.js)\<close>

text \<open>
  The component keeps its data in React state variables and talks to four external
  collaborators (the file reader, pdf.js, mammoth, Tesseract) and to two host objects
  (\<open>localStorage\<close>, \<open>window.speechSynthesis\<close>). The model below passes the state
  explicitly. What a collaborator answers for a given file is part of the file value,
  with \<open>None\<close> for a rejected promise; every throw and every rejected promise of the
  source is a branch of the model.

  Strings are lists of characters; \<open>toLowerCase\<close> is modelled on the letters A to Z.
  JavaScript numbers are modelled by \<open>real\<close>.
\<close>

subsection \<open>Strings\<close>

definition toLowerCase_char :: "char \<Rightarrow> char" where
  "toLowerCase_char c =
     (let n = (of_char c :: nat) in if 65 \<le> n \<and> n \<le> 90 then char_of (n + 32) else c)"

definition toLowerCase :: "string \<Rightarrow> string" where
  "toLowerCase s = map toLowerCase_char s"

text \<open>
  The component never calls \<open>toUpperCase\<close>; it is here to state that the case of a
  file name does not matter.
\<close>

definition toUpperCase_char :: "char \<Rightarrow> char" where
  "toUpperCase_char c =
     (let n = (of_char c :: nat) in if 97 \<le> n \<and> n \<le> 122 then char_of (n - 32) else c)"

definition toUpperCase :: "string \<Rightarrow> string" where
  "toUpperCase s = map toUpperCase_char s"

text \<open>\<open>s.endsWith(x)\<close>\<close>

definition endsWith :: "string \<Rightarrow> string \<Rightarrow> bool" where
  "endsWith s x = (length x \<le> length s \<and> drop (length s - length x) s = x)"

text \<open>\<open>xs.join(sep)\<close> on an array of strings\<close>

fun join :: "string \<Rightarrow> string list \<Rightarrow> string" where
  "join sep [] = []"
| "join sep [x] = x"
| "join sep (x # y # ys) = x @ sep @ join sep (y # ys)"

abbreviation newline :: string where
  "newline \<equiv> [CHR 0x0A]"

subsection \<open>Values, errors, files and the component state\<close>

text \<open>
  What \<open>JSON.parse\<close> can return. An object is an association list holding each of its
  keys once.
\<close>

datatype jsval =
    JUndefined
  | JNull
  | JBool bool
  | JNum real
  | JStr string
  | JArr "jsval list"
  | JObj "(string \<times> jsval) list"

text \<open>
  Exceptions and promise rejections, named by the error taxonomy where it has a name for
  them: \<open>SettingsParseError\<close> is the \<open>SyntaxError\<close> of \<open>JSON.parse\<close>, \<open>PdfParseError\<close>,
  \<open>DocxParseError\<close> and \<open>OcrError\<close> are rejections of pdf.js, mammoth and Tesseract,
  \<open>NotReadableError\<close> is a rejection of \<open>file.text()\<close>, \<open>TypeError\<close> is a property read
  on \<open>undefined\<close> or \<open>null\<close>.
\<close>

datatype error =
    TypeError
  | SettingsParseError
  | NotReadableError
  | PdfParseError
  | DocxParseError
  | OcrError

text \<open>
  A loaded PDF document: \<open>numPages\<close>, and for page \<open>i\<close> the \<open>str\<close> of each item of
  \<open>getTextContent()\<close>, or \<open>None\<close> when \<open>getPage(i)\<close> or \<open>getTextContent()\<close> rejects.
\<close>

record pdf =
  numPages :: nat
  getPage :: "nat \<Rightarrow> string list option"

text \<open>
  A file handle: its name and what each collaborator answers for it
  (\<open>file.text()\<close>, \<open>pdfjsLib.getDocument\<close>, \<open>mammoth.extractRawText\<close>,
  \<open>Tesseract.recognize\<close>), \<open>None\<close> for a rejection.
\<close>

record File =
  name :: string
  file_text :: "string option"
  getDocument :: "pdf option"
  extractRawText :: "string option"
  recognize :: "string option"

record utterance =
  utter_text :: string
  utter_rate :: real

text \<open>
  The state variables of the component (\<open>text_buffer\<close> is the variable \<open>text\<close>), and the
  parts of the host it acts on: \<open>speechSynthesis\<close> is \<open>None\<close> when the property is not in
  \<open>window\<close> and otherwise the queue of utterances (\<open>speak\<close> appends, \<open>cancel\<close> empties it);
  \<open>alerts\<close> are the messages shown by \<open>alert\<close>; \<open>fileInputValue\<close> is the value of the
  file input element; \<open>unhandled\<close> are the rejections of promises nobody awaits.
\<close>

record state =
  text_buffer :: string
  font :: jsval
  fontSize :: jsval
  lineHeight :: jsval
  letterSpacing :: jsval
  bgColor :: jsval
  textColor :: jsval
  rate :: real
  isReading :: bool
  speechSynthesis :: "utterance list option"
  alerts :: "string list"
  fileInputValue :: string
  unhandled :: "error list"

text \<open>The initial values of the \<open>useState\<close> calls, in a host given by its speech queue.\<close>

definition initial_state :: "utterance list option \<Rightarrow> state" where
  "initial_state synth =
     \<lparr> text_buffer = ''Type or paste text here...'',
       font = JStr ''normal'',
       fontSize = JNum 20,
       lineHeight = JNum 1.6,
       letterSpacing = JNum 0,
       bgColor = JStr ''#fffef0'',
       textColor = JStr ''#222222'',
       rate = 1.0,
       isReading = False,
       speechSynthesis = synth,
       alerts = [],
       fileInputValue = [],
       unhandled = [] \<rparr>"

subsection \<open>File import\<close>

text \<open>The page loop of \<open>readPDF\<close>: \<open>for (let i = 1; i <= pdf.numPages; i++)\<close>.\<close>

function readPDF_loop :: "pdf \<Rightarrow> nat \<Rightarrow> string \<Rightarrow> string option" where
  "readPDF_loop doc i fullText =
     (if i \<le> numPages doc then
        (case getPage doc i of
           None \<Rightarrow> None
         | Some items \<Rightarrow> readPDF_loop doc (i + 1) (fullText @ join '' '' items @ newline))
      else Some fullText)"
  by pat_completeness auto
termination
  by (relation "measure (\<lambda>(doc, i, fullText). Suc (numPages doc) - i)") auto

declare readPDF_loop.simps [simp del]

definition readPDF :: "File \<Rightarrow> state \<Rightarrow> state" where
  "readPDF f s =
     (case getDocument f of
        None \<Rightarrow> s\<lparr>unhandled := unhandled s @ [PdfParseError]\<rparr>
      | Some doc \<Rightarrow>
          (case readPDF_loop doc 1 [] of
             None \<Rightarrow> s\<lparr>unhandled := unhandled s @ [PdfParseError]\<rparr>
           | Some fullText \<Rightarrow> s\<lparr>text_buffer := fullText\<rparr>))"

definition readDOCX :: "File \<Rightarrow> state \<Rightarrow> state" where
  "readDOCX f s =
     (case extractRawText f of
        None \<Rightarrow> s\<lparr>unhandled := unhandled s @ [DocxParseError]\<rparr>
      | Some v \<Rightarrow> s\<lparr>text_buffer := v\<rparr>)"

definition readImage :: "File \<Rightarrow> state \<Rightarrow> state" where
  "readImage f s =
     (case recognize f of
        None \<Rightarrow> s\<lparr>unhandled := unhandled s @ [OcrError]\<rparr>
      | Some t \<Rightarrow> s\<lparr>text_buffer := t\<rparr>)"

text \<open>
  \<open>handleFileUpload(e)\<close>, with \<open>files\<close> for \<open>e.target.files\<close>. The three readers are
  called without \<open>await\<close>: their rejection does not stop the handler, which goes on to
  reset the input. \<open>file.text()\<close> is awaited: its rejection ends the handler there.
  The readers write fields the rest of the handler does not touch, so the state after
  all promises have settled is the one computed here in sequence.
\<close>

definition handleFileUpload :: "File list \<Rightarrow> state \<Rightarrow> state" where
  "handleFileUpload files s =
     (case files of
        [] \<Rightarrow> s
      | f # _ \<Rightarrow>
          (let ext = toLowerCase (name f) in
           if endsWith ext ''.txt'' then
             (case file_text f of
                None \<Rightarrow> s\<lparr>unhandled := unhandled s @ [NotReadableError]\<rparr>
              | Some txt \<Rightarrow> s\<lparr>text_buffer := txt, fileInputValue := []\<rparr>)
           else if endsWith ext ''.pdf'' then (readPDF f s)\<lparr>fileInputValue := []\<rparr>
           else if endsWith ext ''.docx'' then (readDOCX f s)\<lparr>fileInputValue := []\<rparr>
           else if list_ex (\<lambda>x. endsWith ext x) [''.png'', ''.jpg'', ''.jpeg'', ''.bmp'']
             then (readImage f s)\<lparr>fileInputValue := []\<rparr>
           else s\<lparr>alerts := alerts s @ [''Unsupported file type''], fileInputValue := []\<rparr>))"

subsection \<open>Read aloud\<close>

text \<open>\<open>speechSynthesis.cancel()\<close> and \<open>speechSynthesis.speak(utter)\<close> on the queue.\<close>

definition cancel :: "utterance list \<Rightarrow> utterance list" where
  "cancel q = []"

definition speak :: "utterance \<Rightarrow> utterance list \<Rightarrow> utterance list" where
  "speak u q = q @ [u]"

text \<open>
  The two button handlers return the exception they throw, if any, with the state as it
  is at that point.
\<close>

definition playTTS :: "state \<Rightarrow> error option \<times> state" where
  "playTTS s =
     (case speechSynthesis s of
        None \<Rightarrow> (None, s\<lparr>alerts := alerts s @ [''Browser does not support TTS'']\<rparr>)
      | Some q \<Rightarrow>
          (let utter = \<lparr>utter_text = text_buffer s, utter_rate = rate s\<rparr>
           in (None, s\<lparr>isReading := True, speechSynthesis := Some (speak utter (cancel q))\<rparr>)))"

definition stopTTS :: "state \<Rightarrow> error option \<times> state" where
  "stopTTS s =
     (case speechSynthesis s of
        None \<Rightarrow> (Some TypeError, s)
      | Some q \<Rightarrow> (None, s\<lparr>speechSynthesis := Some (cancel q), isReading := False\<rparr>))"

text \<open>
  The \<open>onend\<close> callback of an utterance, run by the host when the utterance at the head
  of the queue has been spoken to its end.
\<close>

definition onend :: "state \<Rightarrow> state" where
  "onend s = s\<lparr>speechSynthesis := map_option tl (speechSynthesis s), isReading := False\<rparr>"

subsection \<open>Loading the preferences\<close>

text \<open>The truth value of \<open>if (v)\<close>.\<close>

fun truthy :: "jsval \<Rightarrow> bool" where
  "truthy JUndefined = False"
| "truthy JNull = False"
| "truthy (JBool b) = b"
| "truthy (JNum x) = (x \<noteq> 0)"
| "truthy (JStr t) = (t \<noteq> [])"
| "truthy (JArr xs) = True"
| "truthy (JObj kvs) = True"

text \<open>
  The property read \<open>s.key\<close>, for the six keys the effect reads: it throws on
  \<open>undefined\<close> and \<open>null\<close>, finds the key in an object, and is \<open>undefined\<close> on every
  other value.
\<close>

fun getProp :: "jsval \<Rightarrow> string \<Rightarrow> error + jsval" where
  "getProp JUndefined k = Inl TypeError"
| "getProp JNull k = Inl TypeError"
| "getProp (JObj kvs) k = Inr (case map_of kvs k of None \<Rightarrow> JUndefined | Some v \<Rightarrow> v)"
| "getProp v k = Inr JUndefined"

text \<open>
  One line \<open>if (s.key) setKey(s.key);\<close> inside the \<open>try\<close> block: nothing runs once an
  exception is on its way to the \<open>catch\<close>.
\<close>

definition restore ::
  "string \<Rightarrow> (jsval \<Rightarrow> state \<Rightarrow> state) \<Rightarrow> jsval \<Rightarrow> error option \<times> state \<Rightarrow> error option \<times> state"
where
  "restore key setKey sv r =
     (case r of
        (Some e, s) \<Rightarrow> (Some e, s)
      | (None, s) \<Rightarrow>
          (case getProp sv key of
             Inl e \<Rightarrow> (Some e, s)
           | Inr v \<Rightarrow> (None, if truthy v then setKey v s else s)))"

text \<open>
  A string found in \<open>localStorage\<close> that the component has not written: its text, and what
  \<open>JSON.parse\<close> returns for that text (\<open>None\<close> when it throws).
\<close>

record blob =
  blob_text :: string
  blob_parse :: "jsval option"

text \<open>
  The entry under the key \<open>dyslexia_ui_settings\<close> is such a string, or the string that
  \<open>JSON.stringify\<close> makes of an object literal, kept as the keys and values of the
  literal. The component asks two things of the entry: whether it is the empty string,
  and what \<open>JSON.parse\<close> returns for it. \<open>JSON.stringify\<close> of an object is never empty
  and leaves out the keys whose value is \<open>undefined\<close>; parsing its output gives the
  remaining keys with their values back.
\<close>

datatype stored = Raw blob | Stringified "(string \<times> jsval) list"

fun is_undefined :: "jsval \<Rightarrow> bool" where
  "is_undefined JUndefined = True"
| "is_undefined v = False"

definition is_empty_string :: "stored \<Rightarrow> bool" where
  "is_empty_string t = (case t of Raw b \<Rightarrow> blob_text b = [] | Stringified kvs \<Rightarrow> False)"

definition JSON_parse :: "stored \<Rightarrow> jsval option" where
  "JSON_parse t =
     (case t of
        Raw b \<Rightarrow> blob_parse b
      | Stringified kvs \<Rightarrow> Some (JObj (filter (\<lambda>kv. \<not> is_undefined (snd kv)) kvs)))"

text \<open>
  The save effect: \<open>localStorage.setItem("dyslexia_ui_settings", JSON.stringify({font,
  fontSize, lineHeight, letterSpacing, bgColor, textColor}))\<close>. It replaces the entry,
  and the store is taken to accept the write.
\<close>

definition save :: "state \<Rightarrow> stored option \<Rightarrow> stored option" where
  "save s storage =
     Some (Stringified
       [(''font'', font s), (''fontSize'', fontSize s), (''lineHeight'', lineHeight s),
        (''letterSpacing'', letterSpacing s), (''bgColor'', bgColor s),
        (''textColor'', textColor s)])"

text \<open>The dependency array of the save effect.\<close>

definition deps :: "state \<Rightarrow> jsval list" where
  "deps s = [font s, fontSize s, lineHeight s, letterSpacing s, bgColor s, textColor s]"

text \<open>
  \<open>JSON.parse(localStorage.getItem("dyslexia_ui_settings") || "{}")\<close>, with \<open>storage\<close>
  for what \<open>getItem\<close> returns (\<open>None\<close> for \<open>null\<close>). The empty string is falsy, and
  \<open>JSON.parse("{}")\<close> is the object without keys.
\<close>

definition JSON_parse_stored :: "stored option \<Rightarrow> jsval option" where
  "JSON_parse_stored storage =
     (case storage of
        None \<Rightarrow> Some (JObj [])
      | Some t \<Rightarrow> if is_empty_string t then Some (JObj []) else JSON_parse t)"

text \<open>The body of the \<open>try\<close> block of the load effect.\<close>

definition load_try :: "stored option \<Rightarrow> state \<Rightarrow> error option \<times> state" where
  "load_try storage s =
     (case JSON_parse_stored storage of
        None \<Rightarrow> (Some SettingsParseError, s)
      | Some sv \<Rightarrow>
          restore ''textColor'' (\<lambda>v s. s\<lparr>textColor := v\<rparr>) sv
         (restore ''bgColor'' (\<lambda>v s. s\<lparr>bgColor := v\<rparr>) sv
         (restore ''letterSpacing'' (\<lambda>v s. s\<lparr>letterSpacing := v\<rparr>) sv
         (restore ''lineHeight'' (\<lambda>v s. s\<lparr>lineHeight := v\<rparr>) sv
         (restore ''fontSize'' (\<lambda>v s. s\<lparr>fontSize := v\<rparr>) sv
         (restore ''font'' (\<lambda>v s. s\<lparr>font := v\<rparr>) sv (None, s)))))))"

text \<open>
  The load effect: \<open>try { ... } catch {}\<close> drops the exception and keeps the state.
\<close>

definition load :: "stored option \<Rightarrow> state \<Rightarrow> error option \<times> state" where
  "load storage s = (None, snd (load_try storage s))"

text \<open>
  Mounting the component, with \<open>persisted\<close> for the entry left in \<open>localStorage\<close> by an
  earlier session. The first render has the initial values of the \<open>useState\<close> calls.
  Then the effects run in the order they are declared in: the save effect first, writing
  the values of the first render over the entry, and the load effect second, reading the
  entry as it is then. Where the load effect has changed a setting, the next render runs
  the save effect again.
\<close>

definition mount :: "stored option \<Rightarrow> utterance list option \<Rightarrow> state \<times> stored option" where
  "mount persisted synth =
     (let s0 = initial_state synth;
          storage1 = save s0 persisted;
          s1 = snd (load storage1 s0);
          storage2 = (if deps s1 = deps s0 then storage1 else save s1 storage1)
      in (s1, storage2))"

subsection \<open>The controls\<close>

text \<open>
  The value of an \<open>input type="range"\<close> with the attributes \<open>min\<close> and \<open>max\<close>: the host
  keeps it between the two, whatever position \<open>raw\<close> is asked for.
\<close>

definition range_value :: "real \<Rightarrow> real \<Rightarrow> real \<Rightarrow> real" where
  "range_value lo hi raw = (if raw < lo then lo else if hi < raw then hi else raw)"

text \<open>
  What the user can do once the component is mounted: choose a font, move one of the four
  sliders, pick a colour, edit or clear the text, choose files, press Play or Stop; and
  the host can end the utterance it speaks. Copy and Download change none of the state.
\<close>

datatype event =
    FontSelect string
  | FontSizeRange real
  | LineHeightRange real
  | LetterSpacingRange real
  | BgColorPick string
  | TextColorPick string
  | RateRange real
  | Edit string
  | Clear
  | FileChange "File list"
  | Play
  | Stop
  | UtteranceEnd

fun handler :: "event \<Rightarrow> state \<Rightarrow> state" where
  "handler (FontSelect v) s = s\<lparr>font := JStr v\<rparr>"
| "handler (FontSizeRange raw) s = s\<lparr>fontSize := JNum (range_value 14 48 raw)\<rparr>"
| "handler (LineHeightRange raw) s = s\<lparr>lineHeight := JNum (range_value 1 2.4 raw)\<rparr>"
| "handler (LetterSpacingRange raw) s = s\<lparr>letterSpacing := JNum (range_value 0 4 raw)\<rparr>"
| "handler (BgColorPick c) s = s\<lparr>bgColor := JStr c\<rparr>"
| "handler (TextColorPick c) s = s\<lparr>textColor := JStr c\<rparr>"
| "handler (RateRange raw) s = s\<lparr>rate := range_value 0.5 2 raw\<rparr>"
| "handler (Edit t) s = s\<lparr>text_buffer := t\<rparr>"
| "handler Clear s = s\<lparr>text_buffer := []\<rparr>"
| "handler (FileChange files) s = handleFileUpload files s"
| "handler Play s = snd (playTTS s)"
| "handler Stop s = snd (stopTTS s)"
| "handler UtteranceEnd s = onend s"

text \<open>
  One event: its handler, then the save effect when a value of its dependency array has
  changed.
\<close>

definition dispatch :: "event \<Rightarrow> state \<times> stored option \<Rightarrow> state \<times> stored option" where
  "dispatch ev c =
     (let s' = handler ev (fst c)
      in (s', if deps s' = deps (fst c) then snd c else save s' (snd c)))"

fun run :: "event list \<Rightarrow> state \<times> stored option \<Rightarrow> state \<times> stored option" where
  "run [] c = c"
| "run (ev # evs) c = run evs (dispatch ev c)"

subsection \<open>The specification's notions\<close>

text \<open>
  The definitions of this subsection follow the words of the specification, to be
  compared with the code above.

  The kinds of an import job and the precedence table of the importer: the first suffix
  of the table that ends the lower-cased name decides.
\<close>

datatype kind = Text | Pdf | Docx | Image | Unsupported

definition precedence_spec :: "(string \<times> kind) list" where
  "precedence_spec =
     [(''.txt'', Text), (''.pdf'', Pdf), (''.docx'', Docx),
      (''.png'', Image), (''.jpg'', Image), (''.jpeg'', Image), (''.bmp'', Image)]"

fun first_match_spec :: "string \<Rightarrow> (string \<times> kind) list \<Rightarrow> kind" where
  "first_match_spec n [] = Unsupported"
| "first_match_spec n ((x, k) # rest) = (if endsWith n x then k else first_match_spec n rest)"

definition detectedKind_spec :: "string \<Rightarrow> kind" where
  "detectedKind_spec n = first_match_spec (toLowerCase n) precedence_spec"

text \<open>
  The text of a PDF by the specification: the pages 1 to \<open>numPages\<close> in order, the
  fragments of a page joined by single spaces, a newline after each page.
\<close>

definition pdf_text_spec :: "nat \<Rightarrow> (nat \<Rightarrow> string list) \<Rightarrow> string" where
  "pdf_text_spec n frags = concat (map (\<lambda>i. join '' '' (frags i) @ newline) [1..<Suc n])"

text \<open>
  The import errors of the specification, and the contract
  \<open>import(file) -> Result<string, ImportError>\<close>: the kind of the name selects the
  extractor, whose failure is the error of that kind. A plain-text read that fails has no
  name in the specification; it is \<open>ReadError\<close> here.
\<close>

datatype ImportError = UnsupportedType | PdfParseError_spec | DocxParseError_spec | OcrError_spec | ReadError

definition pdf_extract_spec :: "pdf \<Rightarrow> string option" where
  "pdf_extract_spec doc =
     (if list_all (\<lambda>i. getPage doc i \<noteq> None) [1..<Suc (numPages doc)]
      then Some (pdf_text_spec (numPages doc) (\<lambda>i. the (getPage doc i)))
      else None)"

definition import_spec :: "File \<Rightarrow> ImportError + string" where
  "import_spec f =
     (case detectedKind_spec (name f) of
        Text \<Rightarrow> (case file_text f of None \<Rightarrow> Inl ReadError | Some t \<Rightarrow> Inr t)
      | Pdf \<Rightarrow>
          (case getDocument f of
             None \<Rightarrow> Inl PdfParseError_spec
           | Some doc \<Rightarrow>
               (case pdf_extract_spec doc of None \<Rightarrow> Inl PdfParseError_spec | Some t \<Rightarrow> Inr t))
      | Docx \<Rightarrow> (case extractRawText f of None \<Rightarrow> Inl DocxParseError_spec | Some t \<Rightarrow> Inr t)
      | Image \<Rightarrow> (case recognize f of None \<Rightarrow> Inl OcrError_spec | Some t \<Rightarrow> Inr t)
      | Unsupported \<Rightarrow> Inl UnsupportedType)"

text \<open>An error is surfaced to the user when a message is shown that was not shown before.\<close>

definition surfaced_spec :: "state \<Rightarrow> state \<Rightarrow> bool" where
  "surfaced_spec s s' = (alerts s' \<noteq> alerts s)"

text \<open>The closed intervals of the numeric settings.\<close>

definition in_interval :: "real \<Rightarrow> real \<Rightarrow> jsval \<Rightarrow> bool" where
  "in_interval lo hi v = (case v of JNum x \<Rightarrow> lo \<le> x \<and> x \<le> hi | _ \<Rightarrow> False)"

definition within_bounds_spec :: "state \<Rightarrow> bool" where
  "within_bounds_spec s =
     (in_interval 14 48 (fontSize s) \<and> in_interval 1.0 2.4 (lineHeight s) \<and>
      in_interval 0 4 (letterSpacing s) \<and> 0.5 \<le> rate s \<and> rate s \<le> 2.0)"

text \<open>
  The partial overlay of the specification: every key present in the blob overwrites the
  field, every absent key leaves it.
\<close>

definition present_or :: "(string \<times> jsval) list \<Rightarrow> string \<Rightarrow> jsval \<Rightarrow> jsval" where
  "present_or kvs k d = (case map_of kvs k of None \<Rightarrow> d | Some v \<Rightarrow> v)"

definition overlay_spec :: "(string \<times> jsval) list \<Rightarrow> state \<Rightarrow> state" where
  "overlay_spec kvs s =
     s\<lparr>font := present_or kvs ''font'' (font s),
       fontSize := present_or kvs ''fontSize'' (fontSize s),
       lineHeight := present_or kvs ''lineHeight'' (lineHeight s),
       letterSpacing := present_or kvs ''letterSpacing'' (letterSpacing s),
       bgColor := present_or kvs ''bgColor'' (bgColor s),
       textColor := present_or kvs ''textColor'' (textColor s)\<rparr>"

text \<open>
  The overlay as the body of the load effect computes it: a key overwrites the field when
  its value is truthy.
\<close>

definition truthy_or :: "(string \<times> jsval) list \<Rightarrow> string \<Rightarrow> jsval \<Rightarrow> jsval" where
  "truthy_or kvs k d = (case map_of kvs k of None \<Rightarrow> d | Some v \<Rightarrow> if truthy v then v else d)"

definition overlay_truthy :: "(string \<times> jsval) list \<Rightarrow> state \<Rightarrow> state" where
  "overlay_truthy kvs s =
     s\<lparr>font := truthy_or kvs ''font'' (font s),
       fontSize := truthy_or kvs ''fontSize'' (fontSize s),
       lineHeight := truthy_or kvs ''lineHeight'' (lineHeight s),
       letterSpacing := truthy_or kvs ''letterSpacing'' (letterSpacing s),
       bgColor := truthy_or kvs ''bgColor'' (bgColor s),
       textColor := truthy_or kvs ''textColor'' (textColor s)\<rparr>"

text \<open>
  The controller is speaking only in a host that has the speech capability. This holds
  in the initial state and every handler keeps it.
\<close>

definition controller_inv :: "state \<Rightarrow> bool" where
  "controller_inv s = (speechSynthesis s = None \<longrightarrow> \<not> isReading s)"

section \<open>Properties\<close>

subsection \<open>Auxiliary facts\<close>

lemma toLowerCase_toUpperCase: "toLowerCase (toUpperCase n) = toLowerCase n"
proof -
  have "toLowerCase_char (toUpperCase_char c) = toLowerCase_char c" for c
    unfolding toLowerCase_char_def toUpperCase_char_def Let_def by auto
  then show ?thesis by (simp add: toLowerCase_def toUpperCase_def)
qed

lemma endsWith_last: "endsWith s x \<Longrightarrow> x \<noteq> [] \<Longrightarrow> last s = last x"
proof -
  assume a: "endsWith s x" and b: "x \<noteq> []"
  from a have "s = take (length s - length x) s @ x"
    by (metis append_take_drop_id endsWith_def)
  then have "last s = last (take (length s - length x) s @ x)" by simp
  with b show ?thesis by (simp only: last_append if_False)
qed

lemma kind_cases:
  fixes l :: string
  shows "(first_match_spec l precedence_spec = Text) = endsWith l ''.txt''"
    and "(first_match_spec l precedence_spec = Pdf) = endsWith l ''.pdf''"
    and "(first_match_spec l precedence_spec = Docx) = endsWith l ''.docx''"
    and "(first_match_spec l precedence_spec = Image) =
           (endsWith l ''.png'' \<or> endsWith l ''.jpg'' \<or> endsWith l ''.jpeg'' \<or> endsWith l ''.bmp'')"
    and "(first_match_spec l precedence_spec = Unsupported) =
           (\<not> endsWith l ''.txt'' \<and> \<not> endsWith l ''.pdf'' \<and> \<not> endsWith l ''.docx'' \<and>
            \<not> endsWith l ''.png'' \<and> \<not> endsWith l ''.jpg'' \<and> \<not> endsWith l ''.jpeg'' \<and>
            \<not> endsWith l ''.bmp'')"
  using endsWith_last [of l "''.txt''"] endsWith_last [of l "''.pdf''"]
    endsWith_last [of l "''.docx''"] endsWith_last [of l "''.png''"]
    endsWith_last [of l "''.jpg''"] endsWith_last [of l "''.jpeg''"]
    endsWith_last [of l "''.bmp''"]
  by (auto simp: precedence_spec_def)

lemma readPDF_loop_spec:
  "i \<le> Suc (numPages doc) \<Longrightarrow>
   readPDF_loop doc i acc =
     (if list_all (\<lambda>j. getPage doc j \<noteq> None) [i..<Suc (numPages doc)]
      then Some (acc @ concat (map (\<lambda>j. join '' '' (the (getPage doc j)) @ newline) [i..<Suc (numPages doc)]))
      else None)"
proof (induction doc i acc rule: readPDF_loop.induct)
  case (1 doc i fullText)
  show ?case
  proof (cases "i \<le> numPages doc")
    case False
    with "1.prems" have "i = Suc (numPages doc)" by simp
    then show ?thesis by (simp add: readPDF_loop.simps)
  next
    case True
    then have upt: "[i..<Suc (numPages doc)] = i # [Suc i..<Suc (numPages doc)]"
      by (simp add: upt_conv_Cons)
    show ?thesis
    proof (cases "getPage doc i")
      case None
      with True upt show ?thesis by (subst readPDF_loop.simps) simp
    next
      case (Some items)
      with True have "readPDF_loop doc i fullText =
          readPDF_loop doc (i + 1) (fullText @ join '' '' items @ newline)"
        by (subst readPDF_loop.simps) simp
      also have "\<dots> = (if list_all (\<lambda>j. getPage doc j \<noteq> None) [i + 1..<Suc (numPages doc)]
      then Some ((fullText @ join '' '' items @ newline) @ concat (map (\<lambda>j. join '' '' (the (getPage doc j)) @ newline) [i + 1..<Suc (numPages doc)]))
      else None)"
        using "1.IH" [OF True Some] True by simp
      finally show ?thesis using Some upt by simp
    qed
  qed
qed

lemma readPDF_loop_extract: "readPDF_loop doc 1 [] = pdf_extract_spec doc"
  by (simp add: readPDF_loop_spec pdf_extract_spec_def pdf_text_spec_def)

lemma readPDF_name [simp]: "readPDF (f\<lparr>name := n\<rparr>) s = readPDF f s"
  by (simp add: readPDF_def)
lemma readDOCX_name [simp]: "readDOCX (f\<lparr>name := n\<rparr>) s = readDOCX f s"
  by (simp add: readDOCX_def)
lemma readImage_name [simp]: "readImage (f\<lparr>name := n\<rparr>) s = readImage f s"
  by (simp add: readImage_def)

lemma handleFileUpload_kind:
  "handleFileUpload (f # fs) s =
     (case detectedKind_spec (name f) of
        Text \<Rightarrow>
          (case file_text f of
             None \<Rightarrow> s\<lparr>unhandled := unhandled s @ [NotReadableError]\<rparr>
           | Some txt \<Rightarrow> s\<lparr>text_buffer := txt, fileInputValue := []\<rparr>)
      | Pdf \<Rightarrow> (readPDF f s)\<lparr>fileInputValue := []\<rparr>
      | Docx \<Rightarrow> (readDOCX f s)\<lparr>fileInputValue := []\<rparr>
      | Image \<Rightarrow> (readImage f s)\<lparr>fileInputValue := []\<rparr>
      | Unsupported \<Rightarrow>
          s\<lparr>alerts := alerts s @ [''Unsupported file type''], fileInputValue := []\<rparr>)"
proof (cases "detectedKind_spec (name f)")
  case Text
  then show ?thesis
    using kind_cases(1) [of "toLowerCase (name f)"]
    by (simp add: handleFileUpload_def detectedKind_spec_def)
next
  case Pdf
  then show ?thesis
    using kind_cases(1,2) [of "toLowerCase (name f)"]
    by (simp add: handleFileUpload_def detectedKind_spec_def)
next
  case Docx
  then show ?thesis
    using kind_cases(1,2,3) [of "toLowerCase (name f)"]
    by (simp add: handleFileUpload_def detectedKind_spec_def)
next
  case Image
  then show ?thesis
    using kind_cases(1,2,3,4) [of "toLowerCase (name f)"]
    by (simp add: handleFileUpload_def detectedKind_spec_def)
next
  case Unsupported
  then show ?thesis
    using kind_cases(5) [of "toLowerCase (name f)"]
    by (simp add: handleFileUpload_def detectedKind_spec_def)
qed

subsection \<open>Document importer\<close>

text \<open>
  C1. The handler classifies a file by the suffix of its lower-cased name, the first match
  in the order \<open>.txt\<close>, \<open>.pdf\<close>, \<open>.docx\<close>, then one of
  \<open>.png .jpg .jpeg .bmp\<close> deciding: a text file is read as it is, a PDF goes to
  \<open>readPDF\<close>, a DOCX to \<open>readDOCX\<close>, an image to \<open>readImage\<close>, and any other
  name shows the message for an unsupported type and leaves the text unchanged. The case of
  the letters of the name does not matter.
\<close>

theorem handleFileUpload_classification:
  "handleFileUpload (f # fs) s =
     (case detectedKind_spec (name f) of
        Text \<Rightarrow>
          (case file_text f of
             None \<Rightarrow> s\<lparr>unhandled := unhandled s @ [NotReadableError]\<rparr>
           | Some txt \<Rightarrow> s\<lparr>text_buffer := txt, fileInputValue := []\<rparr>)
      | Pdf \<Rightarrow> (readPDF f s)\<lparr>fileInputValue := []\<rparr>
      | Docx \<Rightarrow> (readDOCX f s)\<lparr>fileInputValue := []\<rparr>
      | Image \<Rightarrow> (readImage f s)\<lparr>fileInputValue := []\<rparr>
      | Unsupported \<Rightarrow>
          s\<lparr>alerts := alerts s @ [''Unsupported file type''], fileInputValue := []\<rparr>)
   \<and> (detectedKind_spec (name f) = Text) = endsWith (toLowerCase (name f)) ''.txt''
   \<and> (detectedKind_spec (name f) = Pdf) = endsWith (toLowerCase (name f)) ''.pdf''
   \<and> (detectedKind_spec (name f) = Docx) = endsWith (toLowerCase (name f)) ''.docx''
   \<and> (detectedKind_spec (name f) = Image) =
       (endsWith (toLowerCase (name f)) ''.png'' \<or> endsWith (toLowerCase (name f)) ''.jpg'' \<or>
        endsWith (toLowerCase (name f)) ''.jpeg'' \<or> endsWith (toLowerCase (name f)) ''.bmp'')
   \<and> (detectedKind_spec (name f) = Unsupported \<longrightarrow>
        text_buffer (handleFileUpload (f # fs) s) = text_buffer s \<and>
        alerts (handleFileUpload (f # fs) s) = alerts s @ [''Unsupported file type''])
   \<and> handleFileUpload (f\<lparr>name := toUpperCase (name f)\<rparr> # fs) s = handleFileUpload (f # fs) s
   \<and> handleFileUpload (f\<lparr>name := toLowerCase (name f)\<rparr> # fs) s = handleFileUpload (f # fs) s"
proof -
  have low: "toLowerCase (toLowerCase n) = toLowerCase n" for n
  proof -
    have "toLowerCase_char (toLowerCase_char c) = toLowerCase_char c" for c
      unfolding toLowerCase_char_def Let_def by auto
    then show ?thesis by (simp add: toLowerCase_def)
  qed
  have up: "detectedKind_spec (toUpperCase n) = detectedKind_spec n" for n
    by (simp add: detectedKind_spec_def toLowerCase_toUpperCase)
  have lo: "detectedKind_spec (toLowerCase n) = detectedKind_spec n" for n
    by (simp add: detectedKind_spec_def low)
  have a: "handleFileUpload (f\<lparr>name := toUpperCase (name f)\<rparr> # fs) s = handleFileUpload (f # fs) s"
    by (simp add: handleFileUpload_kind up split: kind.split)
  have b: "handleFileUpload (f\<lparr>name := toLowerCase (name f)\<rparr> # fs) s = handleFileUpload (f # fs) s"
    by (simp add: handleFileUpload_kind lo split: kind.split)
  have c: "detectedKind_spec (name f) = Unsupported \<longrightarrow>
        text_buffer (handleFileUpload (f # fs) s) = text_buffer s \<and>
        alerts (handleFileUpload (f # fs) s) = alerts s @ [''Unsupported file type'']"
    by (simp add: handleFileUpload_kind)
  show ?thesis
    using a b c handleFileUpload_kind [of f fs s] kind_cases(1,2,3,4) [of "toLowerCase (name f)"]
    unfolding detectedKind_spec_def by blast
qed

theorem handleFileUpload_classification_witness:
  "detectedKind_spec ''Photo.JpEg'' = Image \<and>
   handleFileUpload
     [\<lparr>name = ''Photo.JpEg'', file_text = Some ''raw'', getDocument = None,
       extractRawText = Some ''docx'', recognize = Some ''seen''\<rparr>] (initial_state None)
   = (initial_state None)\<lparr>text_buffer := ''seen''\<rparr> \<and>
   detectedKind_spec ''notes.md'' = Unsupported \<and>
   text_buffer (handleFileUpload
     [\<lparr>name = ''notes.md'', file_text = Some ''raw'', getDocument = None,
       extractRawText = Some ''docx'', recognize = Some ''seen''\<rparr>] (initial_state None))
   = ''Type or paste text here...''"
proof -
  have k: "detectedKind_spec ''Photo.JpEg'' = Image" by code_simp
  have u: "detectedKind_spec ''notes.md'' = Unsupported" by code_simp
  show ?thesis
    using k u
      handleFileUpload_classification [of "\<lparr>name = ''Photo.JpEg'', file_text = Some ''raw'', getDocument = None,
       extractRawText = Some ''docx'', recognize = Some ''seen''\<rparr>" "[]" "initial_state None"]
      handleFileUpload_classification [of "\<lparr>name = ''notes.md'', file_text = Some ''raw'', getDocument = None,
       extractRawText = Some ''docx'', recognize = Some ''seen''\<rparr>" "[]" "initial_state None"]
    by (simp add: readImage_def initial_state_def)
qed

text \<open>
  C2. \<open>readPDF\<close> walks the pages 1 to \<open>numPages\<close> in increasing order, joins the
  fragments of a page with single spaces, puts a newline after each page, and writes the
  concatenation in page order to the text: the text of \<open>n + 1\<close> pages is the text of the
  first \<open>n\<close> followed by the line of page \<open>n + 1\<close>. A document of two pages with the
  fragments \<open>Hello\<close> and \<open>World\<close> gives the text \<open>Hello\<close>, newline, \<open>World\<close>, newline.
\<close>

theorem readPDF_pages_in_order:
  "(getDocument f = Some doc \<and> (\<forall>i. 1 \<le> i \<and> i \<le> numPages doc \<longrightarrow> getPage doc i = Some (frags i))
      \<longrightarrow> readPDF f s = s\<lparr>text_buffer := pdf_text_spec (numPages doc) frags\<rparr>)
   \<and> pdf_text_spec 0 frags = []
   \<and> pdf_text_spec (Suc n) frags = pdf_text_spec n frags @ join '' '' (frags (Suc n)) @ newline
   \<and> readPDF
        \<lparr>name = nm, file_text = ft,
          getDocument = Some \<lparr>numPages = 2,
            getPage = (\<lambda>i. if i = 1 then Some [''Hello''] else if i = 2 then Some [''World''] else None)\<rparr>,
          extractRawText = raw, recognize = ocr\<rparr> s
       = s\<lparr>text_buffer := ''Hello'' @ newline @ ''World'' @ newline\<rparr>"
proof -
  have gen: "readPDF f s = s\<lparr>text_buffer := pdf_text_spec (numPages doc) frags\<rparr>"
    if d: "getDocument f = Some doc"
      and p: "\<forall>i. 1 \<le> i \<and> i \<le> numPages doc \<longrightarrow> getPage doc i = Some (frags i)"
  proof -
    from p have all: "list_all (\<lambda>j. getPage doc j \<noteq> None) [1..<Suc (numPages doc)]"
      by (auto simp: list_all_iff)
    from p have "map (\<lambda>j. join '' '' (the (getPage doc j)) @ newline) [1..<Suc (numPages doc)]
        = map (\<lambda>j. join '' '' (frags j) @ newline) [1..<Suc (numPages doc)]"
      by auto
    then have "pdf_text_spec (numPages doc) (\<lambda>i. the (getPage doc i)) = pdf_text_spec (numPages doc) frags"
      by (simp only: pdf_text_spec_def)
    then have "pdf_extract_spec doc = Some (pdf_text_spec (numPages doc) frags)"
      unfolding pdf_extract_spec_def using all by (simp only: if_True)
    then have "readPDF_loop doc 1 [] = Some (pdf_text_spec (numPages doc) frags)"
      by (simp only: readPDF_loop_extract)
    with d show ?thesis by (simp add: readPDF_def)
  qed
  have two: "readPDF_loop \<lparr>numPages = 2,
            getPage = (\<lambda>i. if i = 1 then Some [''Hello''] else if i = 2 then Some [''World''] else None)\<rparr> 1 []
       = Some (''Hello'' @ newline @ ''World'' @ newline)"
    by (simp add: readPDF_loop.simps)
  have hello: "readPDF
        \<lparr>name = nm, file_text = ft,
          getDocument = Some \<lparr>numPages = 2,
            getPage = (\<lambda>i. if i = 1 then Some [''Hello''] else if i = 2 then Some [''World''] else None)\<rparr>,
          extractRawText = raw, recognize = ocr\<rparr> s
       = s\<lparr>text_buffer := ''Hello'' @ newline @ ''World'' @ newline\<rparr>"
    unfolding readPDF_def using two by simp
  have z: "pdf_text_spec 0 frags = []" by (simp add: pdf_text_spec_def)
  have sc: "pdf_text_spec (Suc n) frags = pdf_text_spec n frags @ join '' '' (frags (Suc n)) @ newline"
    by (simp add: pdf_text_spec_def)
  from gen hello z sc show ?thesis by blast
qed

theorem readPDF_pages_in_order_witness:
  "readPDF
     \<lparr>name = ''a.pdf'', file_text = None,
       getDocument = Some \<lparr>numPages = 3, getPage = (\<lambda>i. Some [''p'', ''q''])\<rparr>,
       extractRawText = None, recognize = None\<rparr> (initial_state None)
   = (initial_state None)\<lparr>text_buffer := ''p q'' @ newline @ ''p q'' @ newline @ ''p q'' @ newline\<rparr>"
proof -
  have t: "pdf_text_spec 3 (\<lambda>i. [''p'', ''q'']) = ''p q'' @ newline @ ''p q'' @ newline @ ''p q'' @ newline"
    by code_simp
  show ?thesis
    using t readPDF_pages_in_order [of "\<lparr>name = ''a.pdf'', file_text = None,
       getDocument = Some \<lparr>numPages = 3, getPage = (\<lambda>i. Some [''p'', ''q''])\<rparr>,
       extractRawText = None, recognize = None\<rparr>" "\<lparr>numPages = 3, getPage = (\<lambda>i. Some [''p'', ''q''])\<rparr>"
       "\<lambda>i. [''p'', ''q'']" "initial_state None"]
    by simp
qed

lemma readPDF_loop_extract_Suc: "readPDF_loop doc (Suc 0) [] = pdf_extract_spec doc"
  using readPDF_loop_extract [of doc] by simp

lemma handleFileUpload_import:
  "handleFileUpload (f # fs) s =
     (case import_spec f of
        Inr t \<Rightarrow> s\<lparr>text_buffer := t, fileInputValue := []\<rparr>
      | Inl UnsupportedType \<Rightarrow>
          s\<lparr>alerts := alerts s @ [''Unsupported file type''], fileInputValue := []\<rparr>
      | Inl PdfParseError_spec \<Rightarrow> s\<lparr>unhandled := unhandled s @ [PdfParseError], fileInputValue := []\<rparr>
      | Inl DocxParseError_spec \<Rightarrow> s\<lparr>unhandled := unhandled s @ [DocxParseError], fileInputValue := []\<rparr>
      | Inl OcrError_spec \<Rightarrow> s\<lparr>unhandled := unhandled s @ [OcrError], fileInputValue := []\<rparr>
      | Inl ReadError \<Rightarrow> s\<lparr>unhandled := unhandled s @ [NotReadableError]\<rparr>)"
  by (simp add: handleFileUpload_kind import_spec_def readPDF_def readDOCX_def readImage_def
      readPDF_loop_extract_Suc split: kind.split option.split)

lemma handleFileUpload_no_file: "handleFileUpload [] s = s"
  by (simp add: handleFileUpload_def)

lemma handleFileUpload_resets:
  "import_spec f \<noteq> Inl ReadError \<Longrightarrow> fileInputValue (handleFileUpload (f # fs) s) = []"
  by (simp add: handleFileUpload_import split: sum.split ImportError.split)

text \<open>
  C3, as the code has it. When the import succeeds the extracted string replaces the text
  and nothing else but the file input changes. When it fails the text is left as it was,
  with no partial write. Only the unsupported type is shown to the user, by an alert; a
  failure of the PDF, DOCX or OCR extractor shows no message: it is a rejected promise
  that nothing handles.
\<close>

theorem import_effect:
  "(import_spec f = Inr t \<longrightarrow>
      handleFileUpload (f # fs) s = s\<lparr>text_buffer := t, fileInputValue := []\<rparr>)
   \<and> (import_spec f = Inl e \<longrightarrow>
      text_buffer (handleFileUpload (f # fs) s) = text_buffer s \<and>
      surfaced_spec s (handleFileUpload (f # fs) s) = (e = UnsupportedType))
   \<and> (import_spec f = Inl UnsupportedType \<longrightarrow>
      alerts (handleFileUpload (f # fs) s) = alerts s @ [''Unsupported file type''] \<and>
      unhandled (handleFileUpload (f # fs) s) = unhandled s)
   \<and> (import_spec f = Inl PdfParseError_spec \<longrightarrow>
      alerts (handleFileUpload (f # fs) s) = alerts s \<and>
      unhandled (handleFileUpload (f # fs) s) = unhandled s @ [PdfParseError])
   \<and> (import_spec f = Inl DocxParseError_spec \<longrightarrow>
      alerts (handleFileUpload (f # fs) s) = alerts s \<and>
      unhandled (handleFileUpload (f # fs) s) = unhandled s @ [DocxParseError])
   \<and> (import_spec f = Inl OcrError_spec \<longrightarrow>
      alerts (handleFileUpload (f # fs) s) = alerts s \<and>
      unhandled (handleFileUpload (f # fs) s) = unhandled s @ [OcrError])"
  by (cases e) (simp_all add: handleFileUpload_import surfaced_spec_def)

theorem import_effect_witness:
  "import_spec \<lparr>name = ''scan.PNG'', file_text = None, getDocument = None,
       extractRawText = None, recognize = None\<rparr> = Inl OcrError_spec \<and>
   text_buffer (handleFileUpload [\<lparr>name = ''scan.PNG'', file_text = None, getDocument = None,
       extractRawText = None, recognize = None\<rparr>] (initial_state None))
     = ''Type or paste text here...'' \<and>
   alerts (handleFileUpload [\<lparr>name = ''scan.PNG'', file_text = None, getDocument = None,
       extractRawText = None, recognize = None\<rparr>] (initial_state None)) = [] \<and>
   unhandled (handleFileUpload [\<lparr>name = ''scan.PNG'', file_text = None, getDocument = None,
       extractRawText = None, recognize = None\<rparr>] (initial_state None)) = [OcrError] \<and>
   import_spec \<lparr>name = ''letter.docx'', file_text = None, getDocument = None,
       extractRawText = Some ''Dear reader'', recognize = None\<rparr> = Inr ''Dear reader'' \<and>
   text_buffer (handleFileUpload [\<lparr>name = ''letter.docx'', file_text = None, getDocument = None,
       extractRawText = Some ''Dear reader'', recognize = None\<rparr>] (initial_state None))
     = ''Dear reader'' \<and>
   import_spec \<lparr>name = ''notes.md'', file_text = Some ''x'', getDocument = None,
       extractRawText = None, recognize = None\<rparr> = Inl UnsupportedType \<and>
   alerts (handleFileUpload [\<lparr>name = ''notes.md'', file_text = Some ''x'', getDocument = None,
       extractRawText = None, recognize = None\<rparr>] (initial_state None))
     = [''Unsupported file type'']"
proof -
  have a: "import_spec \<lparr>name = ''scan.PNG'', file_text = None, getDocument = None,
       extractRawText = None, recognize = None\<rparr> = Inl OcrError_spec"
    by code_simp
  have b: "import_spec \<lparr>name = ''letter.docx'', file_text = None, getDocument = None,
       extractRawText = Some ''Dear reader'', recognize = None\<rparr> = Inr ''Dear reader''"
    by code_simp
  have c: "import_spec \<lparr>name = ''notes.md'', file_text = Some ''x'', getDocument = None,
       extractRawText = None, recognize = None\<rparr> = Inl UnsupportedType"
    by code_simp
  show ?thesis
    using a b c
      import_effect [where f = "\<lparr>name = ''scan.PNG'', file_text = None, getDocument = None,
       extractRawText = None, recognize = None\<rparr>" and e = OcrError_spec and fs = "[]"
       and s = "initial_state None"]
      import_effect [where f = "\<lparr>name = ''letter.docx'', file_text = None, getDocument = None,
       extractRawText = Some ''Dear reader'', recognize = None\<rparr>" and t = "''Dear reader''"
       and fs = "[]" and s = "initial_state None"]
      import_effect [where f = "\<lparr>name = ''notes.md'', file_text = Some ''x'', getDocument = None,
       extractRawText = None, recognize = None\<rparr>" and e = UnsupportedType and fs = "[]"
       and s = "initial_state None"]
    by (simp add: initial_state_def)
qed

text \<open>
  C3 as it was stated fails: a file named \<open>a.pdf\<close> that pdf.js cannot parse is an
  import error, and no message is shown for it.
\<close>

theorem import_error_surfaced_counterexample:
  "import_spec \<lparr>name = ''a.pdf'', file_text = None, getDocument = None,
       extractRawText = None, recognize = None\<rparr> = Inl PdfParseError_spec \<and>
   \<not> surfaced_spec (initial_state (Some []))
      (handleFileUpload [\<lparr>name = ''a.pdf'', file_text = None, getDocument = None,
       extractRawText = None, recognize = None\<rparr>] (initial_state (Some []))) \<and>
   alerts (handleFileUpload [\<lparr>name = ''a.pdf'', file_text = None, getDocument = None,
       extractRawText = None, recognize = None\<rparr>] (initial_state (Some []))) = []"
proof -
  have a: "import_spec \<lparr>name = ''a.pdf'', file_text = None, getDocument = None,
       extractRawText = None, recognize = None\<rparr> = Inl PdfParseError_spec"
    by code_simp
  show ?thesis
    using a by (simp add: handleFileUpload_import surfaced_spec_def initial_state_def)
qed

text \<open>
  C9. The file input is reset after every import attempt. The handler does so in every
  branch but one (\<open>handleFileUpload_resets\<close>): when the name ends in \<open>.txt\<close> and the
  awaited \<open>file.text()\<close> rejects, the handler ends before the reset and the input keeps
  its value.
\<close>

theorem handleFileUpload_txt_rejected_no_reset:
  "fileInputValue
     (handleFileUpload
        [\<lparr>name = ''notes.txt'', file_text = None, getDocument = None,
          extractRawText = None, recognize = None\<rparr>]
        ((initial_state (Some []))\<lparr>fileInputValue := ''notes.txt''\<rparr>))
   = ''notes.txt''"
proof -
  have a: "import_spec \<lparr>name = ''notes.txt'', file_text = None, getDocument = None,
          extractRawText = None, recognize = None\<rparr> = Inl ReadError"
    by code_simp
  show ?thesis
    using a by (simp add: handleFileUpload_import initial_state_def)
qed

subsection \<open>Settings store\<close>

lemma load_try_corrupt:
  "JSON_parse_stored stored = None \<Longrightarrow> load_try stored s = (Some SettingsParseError, s)"
  by (simp add: load_try_def)

lemma load_try_object:
  "JSON_parse_stored stored = Some (JObj kvs) \<Longrightarrow> load_try stored s = (None, overlay_truthy kvs s)"
  by (simp add: load_try_def restore_def overlay_truthy_def truthy_or_def split: option.split)

lemma load_try_null:
  "JSON_parse_stored stored = Some sv \<Longrightarrow> sv = JNull \<or> sv = JUndefined \<Longrightarrow>
   load_try stored s = (Some TypeError, s)"
  by (auto simp: load_try_def restore_def)

lemma load_try_primitive:
  "JSON_parse_stored stored = Some sv \<Longrightarrow>
   sv = JBool b \<or> sv = JNum x \<or> sv = JStr t \<or> sv = JArr xs \<Longrightarrow>
   load_try stored s = (None, s)"
  by (auto simp: load_try_def restore_def)

lemma overlay_truthy_empty: "overlay_truthy [] s = s"
  by (simp add: overlay_truthy_def truthy_or_def)

lemma load_not_object:
  "JSON_parse_stored stored = Some sv \<Longrightarrow> \<forall>kvs. sv \<noteq> JObj kvs \<Longrightarrow> snd (load stored s) = s"
  by (cases sv) (simp_all add: load_def load_try_null load_try_primitive)

subsection \<open>Read-aloud controller\<close>

lemma controller_inv_initial: "controller_inv (initial_state synth)"
  by (simp add: controller_inv_def initial_state_def)

lemma controller_inv_playTTS: "controller_inv s \<Longrightarrow> controller_inv (snd (playTTS s))"
  by (simp add: controller_inv_def playTTS_def Let_def split: option.split)

lemma controller_inv_stopTTS: "controller_inv s \<Longrightarrow> controller_inv (snd (stopTTS s))"
  by (simp add: controller_inv_def stopTTS_def split: option.split)

lemma controller_inv_onend: "controller_inv s \<Longrightarrow> controller_inv (onend s)"
  by (simp add: controller_inv_def onend_def)

lemma controller_inv_handleFileUpload:
  "controller_inv s \<Longrightarrow> controller_inv (handleFileUpload files s)"
proof (cases files)
  case Nil
  then show "controller_inv s \<Longrightarrow> ?thesis" by (simp add: handleFileUpload_no_file)
next
  case (Cons f fs)
  then show "controller_inv s \<Longrightarrow> ?thesis"
    by (simp add: handleFileUpload_import controller_inv_def split: sum.split ImportError.split)
qed

lemma load_controller:
  "isReading (snd (load stored s)) = isReading s \<and>
   speechSynthesis (snd (load stored s)) = speechSynthesis s"
proof (cases "JSON_parse_stored stored")
  case None
  then show ?thesis by (simp add: load_def load_try_corrupt)
next
  case (Some sv)
  then show ?thesis
    by (cases sv)
      (simp_all add: load_def load_try_null load_try_primitive load_try_object overlay_truthy_def)
qed

lemma controller_inv_load: "controller_inv s \<Longrightarrow> controller_inv (snd (load stored s))"
  by (simp add: controller_inv_def load_controller)

text \<open>
  C6. In a host with the speech capability, \<open>playTTS\<close> empties the queue before it
  speaks: whatever was queued or being spoken, the queue then holds exactly one
  utterance, made of the current text and the current rate, and the controller is
  speaking. So after two calls in a row only the utterance of the second call is there.
\<close>

theorem playTTS_supersedes:
  "speechSynthesis s = Some q \<Longrightarrow>
     playTTS s = (None, s\<lparr>isReading := True,
                    speechSynthesis := Some [\<lparr>utter_text = text_buffer s, utter_rate = rate s\<rparr>]\<rparr>)
   \<and> speechSynthesis (snd (playTTS (snd (playTTS s))))
        = Some [\<lparr>utter_text = text_buffer s, utter_rate = rate s\<rparr>]
   \<and> map_option length (speechSynthesis (snd (playTTS (snd (playTTS s))))) = Some 1
   \<and> isReading (snd (playTTS (snd (playTTS s))))"
  by (simp add: playTTS_def cancel_def speak_def Let_def)

theorem playTTS_supersedes_witness:
  "speechSynthesis (snd (playTTS ((initial_state (Some [\<lparr>utter_text = ''old'', utter_rate = 2\<rparr>]))
       \<lparr>isReading := True\<rparr>)))
     = Some [\<lparr>utter_text = ''Type or paste text here...'', utter_rate = 1\<rparr>]"
  using playTTS_supersedes [of "(initial_state (Some [\<lparr>utter_text = ''old'', utter_rate = 2\<rparr>]))
       \<lparr>isReading := True\<rparr>" "[\<lparr>utter_text = ''old'', utter_rate = 2\<rparr>]"]
  by (simp add: initial_state_def)

text \<open>
  C7. In a host without the speech capability, \<open>playTTS\<close> only shows the message that
  the browser does not support speech: an idle controller stays idle, nothing is thrown
  and the text is unchanged.
\<close>

theorem playTTS_unsupported:
  "speechSynthesis s = None \<Longrightarrow>
     playTTS s = (None, s\<lparr>alerts := alerts s @ [''Browser does not support TTS'']\<rparr>)
   \<and> isReading (snd (playTTS s)) = isReading s
   \<and> (\<not> isReading s \<longrightarrow> \<not> isReading (snd (playTTS s)))
   \<and> speechSynthesis (snd (playTTS s)) = None
   \<and> text_buffer (snd (playTTS s)) = text_buffer s"
  by (simp add: playTTS_def)

theorem playTTS_unsupported_witness:
  "playTTS (initial_state None)
     = (None, (initial_state None)\<lparr>alerts := [''Browser does not support TTS'']\<rparr>)
   \<and> \<not> isReading (snd (playTTS (initial_state None)))"
  using playTTS_unsupported [of "initial_state None"]
  by (simp add: initial_state_def)

text \<open>
  C8. In a host with the speech capability, \<open>stopTTS\<close> empties the queue and makes the
  controller idle, whether it was idle or speaking. In every state the component can
  reach, the controller is idle after \<open>stopTTS\<close>; in particular an idle controller stays
  idle, and a second \<open>stopTTS\<close> changes nothing.
\<close>

theorem stopTTS_idle:
  "(speechSynthesis s = Some q \<longrightarrow>
      stopTTS s = (None, s\<lparr>speechSynthesis := Some [], isReading := False\<rparr>))
   \<and> (controller_inv s \<longrightarrow> \<not> isReading (snd (stopTTS s)))
   \<and> (\<not> isReading s \<longrightarrow> \<not> isReading (snd (stopTTS s)))
   \<and> snd (stopTTS (snd (stopTTS s))) = snd (stopTTS s)"
  by (cases "speechSynthesis s") (simp_all add: stopTTS_def cancel_def controller_inv_def)

theorem stopTTS_idle_witness:
  "stopTTS (snd (playTTS (initial_state (Some []))))
     = (None, (initial_state (Some []))\<lparr>speechSynthesis := Some [], isReading := False\<rparr>)
   \<and> isReading (snd (playTTS (initial_state (Some []))))
   \<and> \<not> isReading (snd (stopTTS (initial_state None)))"
proof -
  have p: "speechSynthesis (snd (playTTS (initial_state (Some []))))
      = Some [\<lparr>utter_text = ''Type or paste text here...'', utter_rate = 1\<rparr>]"
    by (simp add: playTTS_def initial_state_def cancel_def speak_def)
  have i: "controller_inv (initial_state None)" by (rule controller_inv_initial)
  show ?thesis
    using p i
      stopTTS_idle [of "snd (playTTS (initial_state (Some [])))"
        "[\<lparr>utter_text = ''Type or paste text here...'', utter_rate = 1\<rparr>]"]
      stopTTS_idle [of "initial_state None"]
    by (simp add: playTTS_def initial_state_def cancel_def speak_def)
qed

text \<open>
  C10. \<open>playTTS\<close> tests for the speech capability before it uses it; \<open>stopTTS\<close> does
  not: in a host without the capability it throws a \<open>TypeError\<close> on the read of
  \<open>window.speechSynthesis.cancel\<close>, before it sets the controller state, where
  \<open>playTTS\<close> returns after an alert.
\<close>

theorem stopTTS_throws_without_capability:
  "speechSynthesis s = None \<Longrightarrow>
     stopTTS s = (Some TypeError, s) \<and> fst (playTTS s) = None"
  by (simp add: stopTTS_def playTTS_def)

theorem stopTTS_throws_without_capability_witness:
  "stopTTS (initial_state None) = (Some TypeError, initial_state None)
   \<and> fst (playTTS (initial_state None)) = None"
  using stopTTS_throws_without_capability [of "initial_state None"]
  by (simp add: initial_state_def)

subsection \<open>Mounting and the controls\<close>

lemma JSON_parse_stored_save:
  "JSON_parse_stored (save s storage) =
     Some (JObj (filter (\<lambda>kv. \<not> is_undefined (snd kv))
       [(''font'', font s), (''fontSize'', fontSize s), (''lineHeight'', lineHeight s),
        (''letterSpacing'', letterSpacing s), (''bgColor'', bgColor s),
        (''textColor'', textColor s)]))"
  by (simp add: JSON_parse_stored_def save_def is_empty_string_def JSON_parse_def)

lemma map_of_filter_distinct:
  "distinct (map fst kvs) \<Longrightarrow>
   map_of (filter P kvs) k = None \<or> map_of (filter P kvs) k = map_of kvs k"
proof (induction kvs)
  case Nil
  then show ?case by simp
next
  case (Cons kv kvs)
  obtain a b where kv: "kv = (a, b)" by (cases kv)
  from Cons.prems kv have notin: "a \<notin> fst ` set kvs" and d: "distinct (map fst kvs)"
    by auto
  from notin have "a \<notin> fst ` set (filter P kvs)" by auto
  then have none: "map_of (filter P kvs) a = None"
    by (simp add: map_of_eq_None_iff)
  from Cons.IH [OF d] none kv show ?case by auto
qed

lemma truthy_or_filter_same:
  assumes "distinct (map fst kvs)" and "map_of kvs k = Some d"
  shows "truthy_or (filter P kvs) k d = d"
  using map_of_filter_distinct [OF assms(1), of P k] assms(2)
  by (auto simp: truthy_or_def)

lemma load_save: "load (save s storage) s = (None, s)"
proof -
  let ?all = "[(''font'', font s), (''fontSize'', fontSize s), (''lineHeight'', lineHeight s),
        (''letterSpacing'', letterSpacing s), (''bgColor'', bgColor s),
        (''textColor'', textColor s)]"
  let ?kvs = "filter (\<lambda>kv. \<not> is_undefined (snd kv)) ?all"
  have d: "distinct (map fst ?all)" by simp
  have f1: "truthy_or ?kvs ''font'' (font s) = font s"
    by (rule truthy_or_filter_same [OF d]) simp
  have f2: "truthy_or ?kvs ''fontSize'' (fontSize s) = fontSize s"
    by (rule truthy_or_filter_same [OF d]) simp
  have f3: "truthy_or ?kvs ''lineHeight'' (lineHeight s) = lineHeight s"
    by (rule truthy_or_filter_same [OF d]) simp
  have f4: "truthy_or ?kvs ''letterSpacing'' (letterSpacing s) = letterSpacing s"
    by (rule truthy_or_filter_same [OF d]) simp
  have f5: "truthy_or ?kvs ''bgColor'' (bgColor s) = bgColor s"
    by (rule truthy_or_filter_same [OF d]) simp
  have f6: "truthy_or ?kvs ''textColor'' (textColor s) = textColor s"
    by (rule truthy_or_filter_same [OF d]) simp
  have "overlay_truthy ?kvs s = s"
    unfolding overlay_truthy_def by (simp only: f1 f2 f3 f4 f5 f6) simp
  then show ?thesis
    by (simp only: load_def load_try_object [OF JSON_parse_stored_save] snd_conv)
qed

lemma mount_eq: "mount persisted synth = (initial_state synth, save (initial_state synth) persisted)"
  by (simp add: mount_def Let_def load_save)

lemma range_value_bounds: "lo \<le> hi \<Longrightarrow> lo \<le> range_value lo hi raw \<and> range_value lo hi raw \<le> hi"
  by (simp add: range_value_def)

lemma within_bounds_initial: "within_bounds_spec (initial_state synth)"
  by (simp add: within_bounds_spec_def in_interval_def initial_state_def)

lemma handleFileUpload_settings:
  "fontSize (handleFileUpload files s) = fontSize s \<and>
   lineHeight (handleFileUpload files s) = lineHeight s \<and>
   letterSpacing (handleFileUpload files s) = letterSpacing s \<and>
   rate (handleFileUpload files s) = rate s"
proof (cases files)
  case Nil
  then show ?thesis by (simp add: handleFileUpload_no_file)
next
  case (Cons f fs)
  then show ?thesis
    by (simp add: handleFileUpload_import split: sum.split ImportError.split)
qed

lemma within_bounds_handler:
  "within_bounds_spec s \<Longrightarrow> within_bounds_spec (handler ev s)"
proof (cases ev)
  case (FileChange files)
  then show "within_bounds_spec s \<Longrightarrow> ?thesis"
    by (simp add: within_bounds_spec_def handleFileUpload_settings)
next
  case Play
  then show "within_bounds_spec s \<Longrightarrow> ?thesis"
    by (simp add: within_bounds_spec_def playTTS_def Let_def split: option.split)
next
  case Stop
  then show "within_bounds_spec s \<Longrightarrow> ?thesis"
    by (simp add: within_bounds_spec_def stopTTS_def split: option.split)
qed (simp_all add: within_bounds_spec_def in_interval_def range_value_def onend_def)

lemma fst_dispatch: "fst (dispatch ev c) = handler ev (fst c)"
  by (simp add: dispatch_def Let_def)

lemma within_bounds_run:
  "within_bounds_spec (fst c) \<Longrightarrow> within_bounds_spec (fst (run evs c))"
  by (induction evs arbitrary: c) (simp_all add: fst_dispatch within_bounds_handler)

lemma controller_inv_handler: "controller_inv s \<Longrightarrow> controller_inv (handler ev s)"
  by (cases ev)
    (simp_all add: controller_inv_playTTS controller_inv_stopTTS controller_inv_onend
      controller_inv_handleFileUpload, simp_all add: controller_inv_def)

lemma controller_inv_run:
  "controller_inv (fst c) \<Longrightarrow> controller_inv (fst (run evs c))"
  by (induction evs arbitrary: c) (simp_all add: fst_dispatch controller_inv_handler)

lemma controller_inv_mount: "controller_inv (fst (run evs (mount persisted synth)))"
  by (simp add: controller_inv_run mount_eq controller_inv_initial)

text \<open>
  C4. Every numeric setting stays inside its closed interval, in every state the
  component reaches: after mounting on any persisted entry, and after any sequence of
  events. A value outside the interval that arrives in a persisted entry is not stored:
  mounting rejects the entry as a whole and keeps the initial values, so the entry
  \<open>{"font":"openDyslexic","fontSize":99}\<close> leaves the font size at 20. A slider position
  outside the interval is clamped to it.
\<close>

theorem settings_within_bounds:
  \<open>within_bounds_spec (fst (run evs (mount persisted synth)))
   \<and> fst (mount persisted synth) = initial_state synth
   \<and> fontSize (fst (mount
        (Some (Raw \<lparr>blob_text = ''{"font":"openDyslexic","fontSize":99}'',
           blob_parse = Some (JObj [(''font'', JStr ''openDyslexic''), (''fontSize'', JNum 99)])\<rparr>))
        synth)) = JNum 20
   \<and> fontSize (handler (FontSizeRange raw) s) = JNum (if raw < 14 then 14 else if 48 < raw then 48 else raw)
   \<and> lineHeight (handler (LineHeightRange raw) s) = JNum (if raw < 1 then 1 else if 2.4 < raw then 2.4 else raw)
   \<and> letterSpacing (handler (LetterSpacingRange raw) s) = JNum (if raw < 0 then 0 else if 4 < raw then 4 else raw)
   \<and> rate (handler (RateRange raw) s) = (if raw < 0.5 then 0.5 else if 2 < raw then 2 else raw)\<close>
proof -
  have a: "within_bounds_spec (fst (run evs (mount persisted synth)))"
    by (simp add: within_bounds_run mount_eq within_bounds_initial)
  have b: "fst (mount p synth) = initial_state synth" for p
    by (simp add: mount_eq)
  have c: "fontSize (initial_state synth) = JNum 20"
    by (simp add: initial_state_def)
  show ?thesis
    using a by (simp add: b c range_value_def)
qed

theorem settings_within_bounds_witness:
  \<open>within_bounds_spec (fst (run [FontSizeRange 99, LineHeightRange 0, RateRange 3, Play, FileChange []]
      (mount (Some (Raw \<lparr>blob_text = ''{"fontSize":99}'',
           blob_parse = Some (JObj [(''fontSize'', JNum 99)])\<rparr>)) (Some []))))
   \<and> fontSize (fst (run [FontSizeRange 99, LineHeightRange 0, RateRange 3, Play, FileChange []]
      (mount (Some (Raw \<lparr>blob_text = ''{"fontSize":99}'',
           blob_parse = Some (JObj [(''fontSize'', JNum 99)])\<rparr>)) (Some [])))) = JNum 48\<close>
proof -
  have e: \<open>fontSize (fst (run [FontSizeRange 99, LineHeightRange 0, RateRange 3, Play, FileChange []]
      (mount (Some (Raw \<lparr>blob_text = ''{"fontSize":99}'',
           blob_parse = Some (JObj [(''fontSize'', JNum 99)])\<rparr>)) (Some [])))) = JNum 48\<close>
    by (simp add: mount_eq fst_dispatch range_value_def playTTS_def Let_def handleFileUpload_no_file
        initial_state_def)
  show ?thesis
    using e settings_within_bounds [where evs = "[FontSizeRange 99, LineHeightRange 0, RateRange 3, Play, FileChange []]"
      and persisted = \<open>Some (Raw \<lparr>blob_text = ''{"fontSize":99}'',
           blob_parse = Some (JObj [(''fontSize'', JNum 99)])\<rparr>)\<close> and synth = "Some []"]
    by simp
qed

text \<open>
  C5. Loading overlays on the defaults the keys present in the persisted entry. The
  load effect alone does so for every key with a truthy value (\<open>load_try_object\<close>), and
  falls back to the defaults without throwing on a missing, empty or corrupt entry. But
  the save effect is declared before it and runs before it when the component mounts:
  it writes the defaults over the entry, the load effect reads those, and the persisted
  entry \<open>{"font":"opendys"}\<close> leaves the font at \<open>normal\<close> and is itself replaced by the
  defaults.
\<close>

theorem mount_discards_persisted:
  \<open>fst (mount (Some (Raw \<lparr>blob_text = ''{"font":"opendys"}'',
           blob_parse = Some (JObj [(''font'', JStr ''opendys'')])\<rparr>)) None)
     = initial_state None
   \<and> font (fst (mount (Some (Raw \<lparr>blob_text = ''{"font":"opendys"}'',
           blob_parse = Some (JObj [(''font'', JStr ''opendys'')])\<rparr>)) None)) = JStr ''normal''
   \<and> font (overlay_spec [(''font'', JStr ''opendys'')] (initial_state None)) = JStr ''opendys''
   \<and> snd (mount (Some (Raw \<lparr>blob_text = ''{"font":"opendys"}'',
           blob_parse = Some (JObj [(''font'', JStr ''opendys'')])\<rparr>)) None)
     = Some (Stringified
         [(''font'', JStr ''normal''), (''fontSize'', JNum 20), (''lineHeight'', JNum 1.6),
          (''letterSpacing'', JNum 0), (''bgColor'', JStr ''#fffef0''),
          (''textColor'', JStr ''#222222'')])
   \<and> snd (load (Some (Raw \<lparr>blob_text = ''{"font":"opendys"}'',
           blob_parse = Some (JObj [(''font'', JStr ''opendys'')])\<rparr>)) (initial_state None))
     = overlay_spec [(''font'', JStr ''opendys'')] (initial_state None)\<close>
proof -
  have l: \<open>snd (load (Some (Raw \<lparr>blob_text = ''{"font":"opendys"}'',
           blob_parse = Some (JObj [(''font'', JStr ''opendys'')])\<rparr>)) (initial_state None))
     = overlay_spec [(''font'', JStr ''opendys'')] (initial_state None)\<close>
    by (simp add: load_def load_try_object JSON_parse_stored_def is_empty_string_def JSON_parse_def
        overlay_truthy_def truthy_or_def overlay_spec_def present_or_def)
  have o: "font (overlay_spec [(''font'', JStr ''opendys'')] (initial_state None)) = JStr ''opendys''"
    by (simp add: overlay_spec_def present_or_def)
  show ?thesis
    using l o by (simp add: mount_eq save_def initial_state_def)
qed

end
